theory Spec2Isabelle
  imports Main
begin

section \<open>Data model\<close>

text \<open>
  States and symbols are Python strings. An input (\<open>chaine\<close>) is any iterable of
  symbols; it is modelled as the list of the symbols it yields. Iterating a Python
  \<open>str\<close> yields its one-character substrings (\<open>iter_str\<close>).
\<close>

type_synonym etat = string
type_synonym symbole = string

definition iter_str :: "string \<Rightarrow> symbole list" where
  "iter_str s = map (\<lambda>c. [c]) s"

text \<open>
  The object: the five fields of the definition and the mutable field
  \<open>etat_actuel\<close>. The transition table is a dictionary of dictionaries. The class of
  \<open>afd_core.py\<close> and the dataclasses of the two visualizer modules have the same fields.
\<close>

record afd =
  alphabet :: "symbole set"
  etats :: "etat set"
  etat_initial :: etat
  etats_finaux :: "etat set"
  transitions :: "etat \<rightharpoonup> (symbole \<rightharpoonup> etat)"
  etat_actuel :: etat

datatype error = ValueError string

section \<open>The class AFD of afd_core.py\<close>

text \<open>\<open>__init__\<close> stores its five arguments and sets \<open>etat_actuel\<close>; it checks nothing.\<close>

definition AFD_init ::
  "symbole set \<Rightarrow> etat set \<Rightarrow> etat \<Rightarrow> etat set \<Rightarrow> (etat \<rightharpoonup> (symbole \<rightharpoonup> etat)) \<Rightarrow> afd" where
  "AFD_init alph ets ini fin trs =
     \<lparr>alphabet = alph, etats = ets, etat_initial = ini, etats_finaux = fin,
      transitions = trs, etat_actuel = ini\<rparr>"

definition reinitialiser :: "afd \<Rightarrow> afd" where
  "reinitialiser A = A\<lparr>etat_actuel := etat_initial A\<rparr>"

text \<open>
  \<open>traiter_symbole\<close> returns the boolean of the source together with the object as the
  call leaves it.
\<close>

definition traiter_symbole :: "afd \<Rightarrow> symbole \<Rightarrow> bool \<times> afd" where
  "traiter_symbole A s =
     (if s \<notin> alphabet A then (False, A)
      else (case transitions A (etat_actuel A) of
              None \<Rightarrow> (False, A)
            | Some t \<Rightarrow>
                (case t s of
                   None \<Rightarrow> (False, A)
                 | Some d \<Rightarrow> (True, A\<lparr>etat_actuel := d\<rparr>))))"

text \<open>
  The \<open>for\<close> loop of \<open>accepter_chaine\<close>. The result is the returned boolean, the object
  as the loop leaves it, and the part of the input that the loop never fetched (what an
  iterator passed as \<open>chaine\<close> still holds after the call).
\<close>

fun accepter_boucle :: "afd \<Rightarrow> symbole list \<Rightarrow> bool \<times> afd \<times> symbole list" where
  "accepter_boucle A [] = (etat_actuel A \<in> etats_finaux A, A, [])"
| "accepter_boucle A (s # reste) =
     (case traiter_symbole A s of
        (ok, A') \<Rightarrow> if \<not> ok then (False, A', reste) else accepter_boucle A' reste)"

definition accepter_chaine :: "afd \<Rightarrow> symbole list \<Rightarrow> bool \<times> afd \<times> symbole list" where
  "accepter_chaine A chaine = accepter_boucle (reinitialiser A) chaine"

text \<open>
  The \<open>for\<close> loop of \<open>obtenir_chemin\<close>, with the local list \<open>chemin\<close> as an argument.
  The result is the returned list, the object as the loop leaves it, and the part of the
  input never fetched.
\<close>

fun chemin_boucle :: "afd \<Rightarrow> etat list \<Rightarrow> symbole list \<Rightarrow> etat list \<times> afd \<times> symbole list" where
  "chemin_boucle A chemin [] = (chemin, A, [])"
| "chemin_boucle A chemin (s # reste) =
     (case traiter_symbole A s of
        (ok, A') \<Rightarrow> if ok then chemin_boucle A' (chemin @ [etat_actuel A']) reste
                   else (chemin, A', reste))"

definition obtenir_chemin :: "afd \<Rightarrow> symbole list \<Rightarrow> etat list \<times> afd \<times> symbole list" where
  "obtenir_chemin A chaine =
     (let A1 = reinitialiser A in chemin_boucle A1 [etat_actuel A1] chaine)"

definition creer_afd_exemple :: afd where
  "creer_afd_exemple =
     AFD_init {''a'', ''b''} {''q0'', ''q1'', ''q2''} ''q0'' {''q2''}
       [''q0'' \<mapsto> [''a'' \<mapsto> ''q1'', ''b'' \<mapsto> ''q0''],
        ''q1'' \<mapsto> [''a'' \<mapsto> ''q1'', ''b'' \<mapsto> ''q2''],
        ''q2'' \<mapsto> [''a'' \<mapsto> ''q1'', ''b'' \<mapsto> ''q0'']]"

section \<open>The dataclass AFD of afd_visualizer_enhanced.py\<close>

text \<open>
  The generated \<open>__init__\<close> stores the five fields and calls \<open>__post_init__\<close>, which
  raises \<open>ValueError\<close> or ends with \<open>reinitialiser\<close>, the call that gives
  \<open>etat_actuel\<close> its first value. The loop over \<open>etats_finaux\<close> raises the same error
  whichever element it meets first.
\<close>

definition reinitialiser_enh :: "afd \<Rightarrow> afd" where
  "reinitialiser_enh A = A\<lparr>etat_actuel := etat_initial A\<rparr>"

definition AFD_enh ::
  "symbole set \<Rightarrow> etat set \<Rightarrow> etat \<Rightarrow> etat set \<Rightarrow> (etat \<rightharpoonup> (symbole \<rightharpoonup> etat))
     \<Rightarrow> error + afd" where
  "AFD_enh alph ets ini fin trs =
     (if ini \<notin> ets then Inl (ValueError ''etat_initial must be an element of etats'')
      else if \<exists>e\<in>fin. e \<notin> ets then Inl (ValueError ''all etats_finaux must be in etats'')
      else Inr \<lparr>alphabet = alph, etats = ets, etat_initial = ini, etats_finaux = fin,
                transitions = trs, etat_actuel = ini\<rparr>)"

definition traiter_symbole_enh :: "afd \<Rightarrow> symbole \<Rightarrow> bool \<times> afd" where
  "traiter_symbole_enh A s =
     (if s \<notin> alphabet A then (False, A)
      else (let trans = (case transitions A (etat_actuel A) of
                           None \<Rightarrow> Map.empty | Some t \<Rightarrow> t)
            in (case trans s of
                  Some d \<Rightarrow> (True, A\<lparr>etat_actuel := d\<rparr>)
                | None \<Rightarrow> (False, A))))"

fun accepter_boucle_enh :: "afd \<Rightarrow> symbole list \<Rightarrow> bool \<times> afd \<times> symbole list" where
  "accepter_boucle_enh A [] = (etat_actuel A \<in> etats_finaux A, A, [])"
| "accepter_boucle_enh A (s # reste) =
     (case traiter_symbole_enh A s of
        (ok, A') \<Rightarrow> if \<not> ok then (False, A', reste) else accepter_boucle_enh A' reste)"

definition accepter_chaine_enh :: "afd \<Rightarrow> symbole list \<Rightarrow> bool \<times> afd \<times> symbole list" where
  "accepter_chaine_enh A chaine = accepter_boucle_enh (reinitialiser_enh A) chaine"

fun chemin_boucle_enh ::
  "afd \<Rightarrow> etat list \<Rightarrow> symbole list \<Rightarrow> etat list \<times> afd \<times> symbole list" where
  "chemin_boucle_enh A chemin [] = (chemin, A, [])"
| "chemin_boucle_enh A chemin (s # reste) =
     (case traiter_symbole_enh A s of
        (ok, A') \<Rightarrow> if ok then chemin_boucle_enh A' (chemin @ [etat_actuel A']) reste
                   else (chemin, A', reste))"

definition obtenir_chemin_enh :: "afd \<Rightarrow> symbole list \<Rightarrow> etat list \<times> afd \<times> symbole list" where
  "obtenir_chemin_enh A chaine =
     (let A1 = reinitialiser_enh A in chemin_boucle_enh A1 [etat_actuel A1] chaine)"

section \<open>The dataclass AFD of afd_visualizer_enhancedd.py\<close>

text \<open>The third module repeats the class of the second one.\<close>

definition reinitialiser_enhd :: "afd \<Rightarrow> afd" where
  "reinitialiser_enhd A = A\<lparr>etat_actuel := etat_initial A\<rparr>"

definition AFD_enhd ::
  "symbole set \<Rightarrow> etat set \<Rightarrow> etat \<Rightarrow> etat set \<Rightarrow> (etat \<rightharpoonup> (symbole \<rightharpoonup> etat))
     \<Rightarrow> error + afd" where
  "AFD_enhd alph ets ini fin trs =
     (if ini \<notin> ets then Inl (ValueError ''etat_initial must be an element of etats'')
      else if \<exists>e\<in>fin. e \<notin> ets then Inl (ValueError ''all etats_finaux must be in etats'')
      else Inr \<lparr>alphabet = alph, etats = ets, etat_initial = ini, etats_finaux = fin,
                transitions = trs, etat_actuel = ini\<rparr>)"

definition traiter_symbole_enhd :: "afd \<Rightarrow> symbole \<Rightarrow> bool \<times> afd" where
  "traiter_symbole_enhd A s =
     (if s \<notin> alphabet A then (False, A)
      else (let trans = (case transitions A (etat_actuel A) of
                           None \<Rightarrow> Map.empty | Some t \<Rightarrow> t)
            in (case trans s of
                  Some d \<Rightarrow> (True, A\<lparr>etat_actuel := d\<rparr>)
                | None \<Rightarrow> (False, A))))"

fun accepter_boucle_enhd :: "afd \<Rightarrow> symbole list \<Rightarrow> bool \<times> afd \<times> symbole list" where
  "accepter_boucle_enhd A [] = (etat_actuel A \<in> etats_finaux A, A, [])"
| "accepter_boucle_enhd A (s # reste) =
     (case traiter_symbole_enhd A s of
        (ok, A') \<Rightarrow> if \<not> ok then (False, A', reste) else accepter_boucle_enhd A' reste)"

definition accepter_chaine_enhd :: "afd \<Rightarrow> symbole list \<Rightarrow> bool \<times> afd \<times> symbole list" where
  "accepter_chaine_enhd A chaine = accepter_boucle_enhd (reinitialiser_enhd A) chaine"

fun chemin_boucle_enhd ::
  "afd \<Rightarrow> etat list \<Rightarrow> symbole list \<Rightarrow> etat list \<times> afd \<times> symbole list" where
  "chemin_boucle_enhd A chemin [] = (chemin, A, [])"
| "chemin_boucle_enhd A chemin (s # reste) =
     (case traiter_symbole_enhd A s of
        (ok, A') \<Rightarrow> if ok then chemin_boucle_enhd A' (chemin @ [etat_actuel A']) reste
                   else (chemin, A', reste))"

definition obtenir_chemin_enhd :: "afd \<Rightarrow> symbole list \<Rightarrow> etat list \<times> afd \<times> symbole list" where
  "obtenir_chemin_enhd A chaine =
     (let A1 = reinitialiser_enhd A in chemin_boucle_enhd A1 [etat_actuel A1] chaine)"

section \<open>Notions of the specification\<close>

text \<open>
  The entry of the transition table for a pair (state, symbol): the destination, or
  \<open>None\<close> when the pair is absent.
\<close>

definition suivant :: "afd \<Rightarrow> etat \<Rightarrow> symbole \<Rightarrow> etat option" where
  "suivant A q c = (case transitions A q of None \<Rightarrow> None | Some t \<Rightarrow> t c)"

text \<open>
  Two objects have the same definition when they agree on the five immutable fields.
\<close>

definition meme_definition :: "afd \<Rightarrow> afd \<Rightarrow> bool" where
  "meme_definition A B \<longleftrightarrow>
     alphabet A = alphabet B \<and> etats A = etats B \<and> etat_initial A = etat_initial B \<and>
     etats_finaux A = etats_finaux B \<and> transitions A = transitions B"

text \<open>
  The three invariants of the specification's data model: the initial state and the
  accepting states are states, and every entry of the transition table has its source
  and destination among the states and its symbol in the alphabet. The table may be
  partial.
\<close>

definition bien_forme :: "afd \<Rightarrow> bool" where
  "bien_forme A \<longleftrightarrow>
     etat_initial A \<in> etats A \<and> etats_finaux A \<subseteq> etats A \<and>
     (\<forall>q t c d. transitions A q = Some t \<longrightarrow> t c = Some d \<longrightarrow>
        q \<in> etats A \<and> c \<in> alphabet A \<and> d \<in> etats A)"

text \<open>A table is complete when every pair of a state and an alphabet symbol has an entry.\<close>

definition complet :: "afd \<Rightarrow> bool" where
  "complet A \<longleftrightarrow> (\<forall>q\<in>etats A. \<forall>c\<in>alphabet A. suivant A q c \<noteq> None)"

text \<open>
  The calls a client can make on an object, and the object after a sequence of them
  (the values the calls return are dropped).
\<close>

datatype appel =
  Reinitialiser | Traiter symbole | Accepter "symbole list" | Chemin "symbole list"

fun executer :: "afd \<Rightarrow> appel \<Rightarrow> afd" where
  "executer A Reinitialiser = reinitialiser A"
| "executer A (Traiter s) = snd (traiter_symbole A s)"
| "executer A (Accepter ch) = fst (snd (accepter_chaine A ch))"
| "executer A (Chemin ch) = fst (snd (obtenir_chemin A ch))"

definition historique :: "afd \<Rightarrow> appel list \<Rightarrow> afd" where
  "historique A appels = foldl executer A appels"

text \<open>
  A test automaton with a partial table: alphabet \<open>{a, b}\<close>, the single state \<open>q0\<close>
  (initial and accepting), and the single transition \<open>q0 -a-> q0\<close>.
\<close>

definition afd_partiel :: afd where
  "afd_partiel =
     AFD_init {''a'', ''b''} {''q0''} ''q0'' {''q0''} [''q0'' \<mapsto> [''a'' \<mapsto> ''q0'']]"

section \<open>The step\<close>

lemma traiter_symbole_eq:
  "traiter_symbole A s =
     (case (if s \<in> alphabet A then suivant A (etat_actuel A) s else None) of
        None \<Rightarrow> (False, A)
      | Some d \<Rightarrow> (True, A\<lparr>etat_actuel := d\<rparr>))"
  by (simp add: traiter_symbole_def suivant_def split: option.splits)

lemma traiter_symbole_succes:
  "traiter_symbole A s = (True, A') \<Longrightarrow>
     s \<in> alphabet A \<and> suivant A (etat_actuel A) s = Some (etat_actuel A') \<and>
     A' = A\<lparr>etat_actuel := etat_actuel A'\<rparr>"
  by (auto simp: traiter_symbole_eq split: option.splits if_splits)

lemma traiter_symbole_meme_definition:
  "meme_definition A (snd (traiter_symbole A s))"
  by (auto simp: traiter_symbole_eq meme_definition_def split: option.splits if_splits)

lemma suivant_etat_actuel: "suivant (A\<lparr>etat_actuel := x\<rparr>) q c = suivant A q c"
  by (simp add: suivant_def)

lemma meme_definition_refl: "meme_definition A A"
  by (simp add: meme_definition_def)

lemma meme_definition_trans:
  "meme_definition A B \<Longrightarrow> meme_definition B C \<Longrightarrow> meme_definition A C"
  by (simp add: meme_definition_def)

lemma meme_definition_reinitialiser: "meme_definition A (reinitialiser A)"
  by (simp add: meme_definition_def reinitialiser_def)

lemma reinitialiser_cong:
  "meme_definition A B \<Longrightarrow> reinitialiser A = reinitialiser B"
  by (simp add: meme_definition_def reinitialiser_def)

section \<open>The two test automata\<close>

lemma exemple_champs:
  "alphabet creer_afd_exemple = {''a'', ''b''}"
  "etats creer_afd_exemple = {''q0'', ''q1'', ''q2''}"
  "etat_initial creer_afd_exemple = ''q0''"
  "etats_finaux creer_afd_exemple = {''q2''}"
  "transitions creer_afd_exemple =
     [''q0'' \<mapsto> [''a'' \<mapsto> ''q1'', ''b'' \<mapsto> ''q0''],
      ''q1'' \<mapsto> [''a'' \<mapsto> ''q1'', ''b'' \<mapsto> ''q2''],
      ''q2'' \<mapsto> [''a'' \<mapsto> ''q1'', ''b'' \<mapsto> ''q0'']]"
  "etat_actuel creer_afd_exemple = ''q0''"
  by (simp_all add: creer_afd_exemple_def AFD_init_def)

lemma afd_partiel_champs:
  "alphabet afd_partiel = {''a'', ''b''}" "etats afd_partiel = {''q0''}"
  "etat_initial afd_partiel = ''q0''" "etats_finaux afd_partiel = {''q0''}"
  "transitions afd_partiel = [''q0'' \<mapsto> [''a'' \<mapsto> ''q0'']]"
  "etat_actuel afd_partiel = ''q0''"
  by (simp_all add: afd_partiel_def AFD_init_def)

lemmas evalue = accepter_chaine_def obtenir_chemin_def Let_def reinitialiser_def iter_str_def
  traiter_symbole_def exemple_champs

lemma bien_forme_exemple: "bien_forme creer_afd_exemple"
  by (auto simp: bien_forme_def exemple_champs split: if_splits)

lemma complet_exemple: "complet creer_afd_exemple"
  by (simp add: complet_def suivant_def exemple_champs)

lemma bien_forme_partiel: "bien_forme afd_partiel"
  by (auto simp: bien_forme_def afd_partiel_champs split: if_splits)

section \<open>Construction\<close>

text \<open>
  C1, as the code has it. The constructor of \<open>afd_core.py\<close> checks nothing and always
  returns the object with the given fields. The dataclass constructor of the two
  visualizer modules raises \<open>ValueError\<close>, and returns no object, when the initial state
  is not a state or when some accepting state is not a state; in every other case it
  returns the object with exactly the given fields, its current state being the initial
  state. The entries of the transition table are not looked at.
\<close>

theorem construction_dataclass:
  "AFD_init alph ets ini fin trs =
     \<lparr>alphabet = alph, etats = ets, etat_initial = ini, etats_finaux = fin,
      transitions = trs, etat_actuel = ini\<rparr> \<and>
   (ini \<notin> ets \<longrightarrow>
      AFD_enh alph ets ini fin trs =
        Inl (ValueError ''etat_initial must be an element of etats'')) \<and>
   (ini \<in> ets \<and> \<not> fin \<subseteq> ets \<longrightarrow>
      AFD_enh alph ets ini fin trs = Inl (ValueError ''all etats_finaux must be in etats'')) \<and>
   (ini \<in> ets \<and> fin \<subseteq> ets \<longrightarrow>
      AFD_enh alph ets ini fin trs =
        Inr \<lparr>alphabet = alph, etats = ets, etat_initial = ini, etats_finaux = fin,
             transitions = trs, etat_actuel = ini\<rparr>) \<and>
   AFD_enhd alph ets ini fin trs = AFD_enh alph ets ini fin trs"
  by (auto simp: AFD_init_def AFD_enh_def AFD_enhd_def)

text \<open>The three cases of the dataclass constructor on concrete definitions.\<close>

theorem construction_dataclass_witness:
  "AFD_enh {''a''} {''q0''} ''q1'' {''q0''} Map.empty =
     Inl (ValueError ''etat_initial must be an element of etats'') \<and>
   AFD_enh {''a''} {''q0''} ''q0'' {''q0'', ''q1''} Map.empty =
     Inl (ValueError ''all etats_finaux must be in etats'') \<and>
   AFD_enh {''a''} {''q0''} ''q0'' {''q0''} [''q0'' \<mapsto> [''a'' \<mapsto> ''q0'']] =
     Inr \<lparr>alphabet = {''a''}, etats = {''q0''}, etat_initial = ''q0'', etats_finaux = {''q0''},
          transitions = [''q0'' \<mapsto> [''a'' \<mapsto> ''q0'']], etat_actuel = ''q0''\<rparr>"
  using construction_dataclass [of "{''a''}" "{''q0''}" "''q1''" "{''q0''}" Map.empty]
    construction_dataclass [of "{''a''}" "{''q0''}" "''q0''" "{''q0'', ''q1''}" Map.empty]
    construction_dataclass [of "{''a''}" "{''q0''}" "''q0''" "{''q0''}"
      "[''q0'' \<mapsto> [''a'' \<mapsto> ''q0'']]"]
  by simp

text \<open>
  C1 as stated fails: a definition whose only transition leads to \<open>q9\<close>, which is not
  a state, breaks the third invariant, and the dataclass constructor returns the object.
\<close>

theorem transition_non_verifiee:
  "''q9'' \<notin> {''q0''} \<and>
   AFD_enh {''a''} {''q0''} ''q0'' {''q0''} [''q0'' \<mapsto> [''a'' \<mapsto> ''q9'']] =
     Inr \<lparr>alphabet = {''a''}, etats = {''q0''}, etat_initial = ''q0'', etats_finaux = {''q0''},
          transitions = [''q0'' \<mapsto> [''a'' \<mapsto> ''q9'']], etat_actuel = ''q0''\<rparr> \<and>
   \<not> bien_forme \<lparr>alphabet = {''a''}, etats = {''q0''}, etat_initial = ''q0'',
          etats_finaux = {''q0''},
          transitions = [''q0'' \<mapsto> [''a'' \<mapsto> ''q9'']], etat_actuel = ''q0''\<rparr>"
  by (auto simp: AFD_enh_def bien_forme_def)

section \<open>What a rejected step returns\<close>

lemma meme_definition_suivant:
  "meme_definition A B \<Longrightarrow> suivant B q c = suivant A q c"
  by (simp add: meme_definition_def suivant_def)

text \<open>
  Two inputs that agree up to a position and there hold, the one a symbol outside the
  alphabet, the other an alphabet symbol without an entry from the state reached: both
  loops return the same value and leave the same object.
\<close>

lemma boucles_causes:
  assumes "s1 \<notin> alphabet A" and "s2 \<in> alphabet A"
    and "suivant A (etat_actuel (fst (snd (accepter_boucle A pre)))) s2 = None"
  shows "fst (accepter_boucle A (pre @ s1 # reste)) =
           fst (accepter_boucle A (pre @ s2 # reste)) \<and>
         fst (snd (accepter_boucle A (pre @ s1 # reste))) =
           fst (snd (accepter_boucle A (pre @ s2 # reste))) \<and>
         fst (chemin_boucle A chemin (pre @ s1 # reste)) =
           fst (chemin_boucle A chemin (pre @ s2 # reste)) \<and>
         fst (snd (chemin_boucle A chemin (pre @ s1 # reste))) =
           fst (snd (chemin_boucle A chemin (pre @ s2 # reste)))"
  using assms
proof (induction pre arbitrary: A chemin)
  case Nil
  then show ?case by (simp add: traiter_symbole_eq)
next
  case (Cons s p)
  obtain ok A' where t: "traiter_symbole A s = (ok, A')" by (cases "traiter_symbole A s")
  show ?case
  proof (cases ok)
    case False
    with t show ?thesis by simp
  next
    case True
    have m: "meme_definition A A'"
      using traiter_symbole_meme_definition [of A s] t by simp
    then have al: "alphabet A' = alphabet A" by (simp add: meme_definition_def)
    have 1: "s1 \<notin> alphabet A'" and 2: "s2 \<in> alphabet A'"
      using Cons.prems al by simp_all
    have 3: "suivant A' (etat_actuel (fst (snd (accepter_boucle A' p)))) s2 = None"
      using Cons.prems(3) t True meme_definition_suivant [OF m] by simp
    from Cons.IH [OF 1 2 3, of "chemin @ [etat_actuel A']"] t True show ?thesis by simp
  qed
qed

text \<open>
  C2, as the code has it. \<open>traiter_symbole\<close> returns a boolean: true exactly when the
  symbol is in the alphabet and the pair (current state, symbol) has an entry in the
  table. A symbol outside the alphabet and an alphabet symbol with no entry both give
  the same value, \<open>False\<close> with the object unchanged. \<open>accepter_chaine\<close> and
  \<open>obtenir_chemin\<close> return the same results whichever of the two causes stops them, at
  whatever position: at the first symbol the whole results are equal, and after any
  common prefix \<open>pre\<close> the boolean, the path and the object left behind are the same
  whether the next symbol is outside the alphabet or is an alphabet symbol with no
  entry from the state reached after \<open>pre\<close>. The cause is not part of any return
  value.
\<close>

theorem traiter_symbole_booleen:
  "fst (traiter_symbole A s) = (s \<in> alphabet A \<and> suivant A (etat_actuel A) s \<noteq> None) \<and>
   (s1 \<notin> alphabet A \<and> s2 \<in> alphabet A \<and> suivant A (etat_actuel A) s2 = None \<longrightarrow>
      traiter_symbole A s1 = (False, A) \<and> traiter_symbole A s2 = (False, A)) \<and>
   (s1 \<notin> alphabet A \<and> s2 \<in> alphabet A \<and> suivant A (etat_initial A) s2 = None \<longrightarrow>
      accepter_chaine A (s1 # reste) = accepter_chaine A (s2 # reste) \<and>
      obtenir_chemin A (s1 # reste) = obtenir_chemin A (s2 # reste)) \<and>
   (s1 \<notin> alphabet A \<and> s2 \<in> alphabet A \<and>
    suivant A (etat_actuel (fst (snd (accepter_chaine A pre)))) s2 = None \<longrightarrow>
      fst (accepter_chaine A (pre @ s1 # reste)) = fst (accepter_chaine A (pre @ s2 # reste)) \<and>
      fst (snd (accepter_chaine A (pre @ s1 # reste))) =
        fst (snd (accepter_chaine A (pre @ s2 # reste))) \<and>
      fst (obtenir_chemin A (pre @ s1 # reste)) = fst (obtenir_chemin A (pre @ s2 # reste)) \<and>
      fst (snd (obtenir_chemin A (pre @ s1 # reste))) =
        fst (snd (obtenir_chemin A (pre @ s2 # reste))))"
proof -
  let ?A1 = "reinitialiser A"
  have a: "fst (traiter_symbole A s) =
      (s \<in> alphabet A \<and> suivant A (etat_actuel A) s \<noteq> None)"
    by (auto simp: traiter_symbole_eq split: option.splits)
  have b: "traiter_symbole A s1 = (False, A) \<and> traiter_symbole A s2 = (False, A)"
    if "s1 \<notin> alphabet A \<and> s2 \<in> alphabet A \<and> suivant A (etat_actuel A) s2 = None"
    using that by (simp add: traiter_symbole_eq)
  have c: "accepter_chaine A (s1 # reste) = accepter_chaine A (s2 # reste) \<and>
      obtenir_chemin A (s1 # reste) = obtenir_chemin A (s2 # reste)"
    if "s1 \<notin> alphabet A \<and> s2 \<in> alphabet A \<and> suivant A (etat_initial A) s2 = None"
    using that
    by (simp add: traiter_symbole_eq accepter_chaine_def obtenir_chemin_def Let_def
        reinitialiser_def suivant_etat_actuel)
  have d: "fst (accepter_chaine A (pre @ s1 # reste)) =
        fst (accepter_chaine A (pre @ s2 # reste)) \<and>
      fst (snd (accepter_chaine A (pre @ s1 # reste))) =
        fst (snd (accepter_chaine A (pre @ s2 # reste))) \<and>
      fst (obtenir_chemin A (pre @ s1 # reste)) = fst (obtenir_chemin A (pre @ s2 # reste)) \<and>
      fst (snd (obtenir_chemin A (pre @ s1 # reste))) =
        fst (snd (obtenir_chemin A (pre @ s2 # reste)))"
    if h: "s1 \<notin> alphabet A \<and> s2 \<in> alphabet A \<and>
      suivant A (etat_actuel (fst (snd (accepter_chaine A pre)))) s2 = None"
  proof -
    have 1: "s1 \<notin> alphabet ?A1" and 2: "s2 \<in> alphabet ?A1"
      using h by (simp_all add: reinitialiser_def)
    have 3: "suivant ?A1 (etat_actuel (fst (snd (accepter_boucle ?A1 pre)))) s2 = None"
      using h meme_definition_suivant [OF meme_definition_reinitialiser, of A]
      by (simp add: accepter_chaine_def)
    from boucles_causes [OF 1 2 3, of reste "[etat_actuel ?A1]"] show ?thesis
      by (simp add: accepter_chaine_def obtenir_chemin_def Let_def)
  qed
  from a b c d show ?thesis by blast
qed

text \<open>
  On the partial automaton, \<open>c\<close> is outside the alphabet and \<open>b\<close> has no transition
  from \<open>q0\<close>: the results agree when the stop is at the first symbol and when it is
  at the third, after the prefix \<open>a, a\<close>.
\<close>

theorem traiter_symbole_booleen_witness:
  "traiter_symbole afd_partiel ''c'' = (False, afd_partiel) \<and>
   traiter_symbole afd_partiel ''b'' = (False, afd_partiel) \<and>
   accepter_chaine afd_partiel [''c'', ''a''] = accepter_chaine afd_partiel [''b'', ''a''] \<and>
   obtenir_chemin afd_partiel [''c'', ''a''] = obtenir_chemin afd_partiel [''b'', ''a''] \<and>
   fst (accepter_chaine afd_partiel [''a'', ''a'', ''c'', ''a'']) =
     fst (accepter_chaine afd_partiel [''a'', ''a'', ''b'', ''a'']) \<and>
   fst (snd (accepter_chaine afd_partiel [''a'', ''a'', ''c'', ''a''])) =
     fst (snd (accepter_chaine afd_partiel [''a'', ''a'', ''b'', ''a''])) \<and>
   fst (obtenir_chemin afd_partiel [''a'', ''a'', ''c'', ''a'']) =
     fst (obtenir_chemin afd_partiel [''a'', ''a'', ''b'', ''a'']) \<and>
   fst (snd (obtenir_chemin afd_partiel [''a'', ''a'', ''c'', ''a''])) =
     fst (snd (obtenir_chemin afd_partiel [''a'', ''a'', ''b'', ''a'']))"
proof -
  have h: "''c'' \<notin> alphabet afd_partiel \<and> ''b'' \<in> alphabet afd_partiel \<and>
      suivant afd_partiel (etat_actuel afd_partiel) ''b'' = None"
    and h': "''c'' \<notin> alphabet afd_partiel \<and> ''b'' \<in> alphabet afd_partiel \<and>
      suivant afd_partiel (etat_initial afd_partiel) ''b'' = None"
    and h'': "''c'' \<notin> alphabet afd_partiel \<and> ''b'' \<in> alphabet afd_partiel \<and>
      suivant afd_partiel
        (etat_actuel (fst (snd (accepter_chaine afd_partiel [''a'', ''a''])))) ''b'' = None"
    by (simp_all add: afd_partiel_champs suivant_def accepter_chaine_def reinitialiser_def
        traiter_symbole_def)
  from traiter_symbole_booleen
    [of afd_partiel _ "''c''" "''b''" "[''a'']" "[''a'', ''a'']"] h h' h''
  show ?thesis by simp
qed

text \<open>
  C2 as stated fails: the two causes of rejection give equal return values of the step,
  of \<open>accepter_chaine\<close> and of \<open>obtenir_chemin\<close>, at the first symbol and at the
  second.
\<close>

theorem causes_confondues:
  "''c'' \<notin> alphabet afd_partiel \<and> ''b'' \<in> alphabet afd_partiel \<and>
   suivant afd_partiel (etat_actuel afd_partiel) ''b'' = None \<and>
   traiter_symbole afd_partiel ''c'' = traiter_symbole afd_partiel ''b'' \<and>
   accepter_chaine afd_partiel [''c''] = accepter_chaine afd_partiel [''b''] \<and>
   obtenir_chemin afd_partiel [''c''] = obtenir_chemin afd_partiel [''b''] \<and>
   accepter_chaine afd_partiel [''a'', ''c''] = accepter_chaine afd_partiel [''a'', ''b''] \<and>
   obtenir_chemin afd_partiel [''a'', ''c''] = obtenir_chemin afd_partiel [''a'', ''b'']"
  by (simp add: afd_partiel_champs suivant_def traiter_symbole_def accepter_chaine_def
      obtenir_chemin_def Let_def reinitialiser_def)

section \<open>A rejected step changes nothing\<close>

text \<open>
  C3. When the symbol is outside the alphabet, or the pair (current state, symbol) has
  no entry in the table, \<open>traiter_symbole\<close> returns \<open>False\<close> and leaves the object,
  hence the current state, as it was; the loop of \<open>obtenir_chemin\<close> stops with the
  path accumulated so far, unchanged, and the loop of \<open>accepter_chaine\<close> returns
  \<open>False\<close>. This holds for every object, valid or not.
\<close>

theorem rejet_atomique:
  assumes "s \<notin> alphabet A \<or> suivant A (etat_actuel A) s = None"
  shows "traiter_symbole A s = (False, A) \<and>
         chemin_boucle A chemin (s # reste) = (chemin, A, reste) \<and>
         accepter_boucle A (s # reste) = (False, A, reste)"
proof -
  have "traiter_symbole A s = (False, A)"
    using assms by (auto simp: traiter_symbole_eq)
  then show ?thesis by simp
qed

theorem rejet_atomique_witness:
  "traiter_symbole afd_partiel ''b'' = (False, afd_partiel) \<and>
   chemin_boucle afd_partiel [''q0'', ''q0''] [''b'', ''a''] =
     ([''q0'', ''q0''], afd_partiel, [''a'']) \<and>
   accepter_boucle afd_partiel [''b'', ''a''] = (False, afd_partiel, [''a''])"
proof -
  have "''b'' \<notin> alphabet afd_partiel \<or>
      suivant afd_partiel (etat_actuel afd_partiel) ''b'' = None"
    by (simp add: afd_partiel_champs suivant_def)
  from rejet_atomique [OF this] show ?thesis .
qed

section \<open>The path\<close>

lemma chemin_boucle_prefixe:
  "\<exists>suite. fst (chemin_boucle A chemin chaine) = chemin @ suite"
proof (induction chaine arbitrary: A chemin)
  case Nil
  show ?case by simp
next
  case (Cons s reste)
  obtain ok A' where t: "traiter_symbole A s = (ok, A')" by (cases "traiter_symbole A s")
  show ?case
  proof (cases ok)
    case True
    from Cons.IH [of A' "chemin @ [etat_actuel A']"] t True show ?thesis by auto
  next
    case False
    with t show ?thesis by simp
  qed
qed

text \<open>
  Loop invariant: the last element of \<open>chemin\<close> is the current state. Every pair of
  neighbours that the loop adds is an entry of the table under a symbol of the input.
\<close>

lemma chemin_boucle_paires:
  assumes "chemin \<noteq> []" and "last chemin = etat_actuel A"
    and "length chemin \<le> Suc i" and "Suc i < length (fst (chemin_boucle A chemin chaine))"
  shows "\<exists>c\<in>set chaine.
           suivant A (fst (chemin_boucle A chemin chaine) ! i) c =
             Some (fst (chemin_boucle A chemin chaine) ! Suc i)"
  using assms
proof (induction chaine arbitrary: A chemin)
  case Nil
  then show ?case by simp
next
  case (Cons s reste)
  obtain ok A' where t: "traiter_symbole A s = (ok, A')" by (cases "traiter_symbole A s")
  show ?case
  proof (cases ok)
    case False
    with t Cons.prems show ?thesis by simp
  next
    case True
    let ?c' = "chemin @ [etat_actuel A']"
    let ?P = "fst (chemin_boucle A' ?c' reste)"
    have eqP: "fst (chemin_boucle A chemin (s # reste)) = ?P"
      using t True by simp
    from traiter_symbole_succes t True
    have st: "suivant A (etat_actuel A) s = Some (etat_actuel A')"
      and A': "A' = A\<lparr>etat_actuel := etat_actuel A'\<rparr>" by auto
    have suiv: "suivant A' q c = suivant A q c" for q c
      by (subst A') (rule suivant_etat_actuel)
    obtain suite where su: "?P = ?c' @ suite"
      using chemin_boucle_prefixe [of A' ?c' reste] by blast
    show ?thesis
    proof (cases "Suc i = length chemin")
      case True
      have i: "i = length chemin - 1" using True by simp
      have "?P ! i = last chemin"
        using su Cons.prems(1) by (simp add: i nth_append last_conv_nth)
      moreover have "?P ! Suc i = etat_actuel A'"
        using su True by (simp add: nth_append)
      ultimately show ?thesis
        using st Cons.prems(2) eqP by simp
    next
      case False
      with Cons.prems(3) have le: "length ?c' \<le> Suc i" by simp
      have lt: "Suc i < length ?P" using Cons.prems(4) eqP by simp
      have "?c' \<noteq> []" and "last ?c' = etat_actuel A'" by simp_all
      from Cons.IH [OF this le lt] suiv eqP show ?thesis by auto
    qed
  qed
qed

text \<open>
  C4. For every object and every input, the path returned by \<open>obtenir_chemin\<close> is not
  empty, its first element is the initial state, and every two neighbours \<open>p\<close>, \<open>q\<close>
  of the path are joined by an entry of the transition table: some symbol \<open>c\<close> of the
  input has \<open>(p, c)\<close> mapped to \<open>q\<close>. This holds for every object, valid or not.
\<close>

theorem obtenir_chemin_transitions:
  "fst (obtenir_chemin A chaine) \<noteq> [] \<and>
   hd (fst (obtenir_chemin A chaine)) = etat_initial A \<and>
   (\<forall>i. Suc i < length (fst (obtenir_chemin A chaine)) \<longrightarrow>
      (\<exists>c\<in>set chaine.
         suivant A (fst (obtenir_chemin A chaine) ! i) c =
           Some (fst (obtenir_chemin A chaine) ! Suc i)))"
proof -
  let ?A1 = "reinitialiser A"
  let ?P = "fst (chemin_boucle ?A1 [etat_actuel ?A1] chaine)"
  have P: "fst (obtenir_chemin A chaine) = ?P"
    by (simp add: obtenir_chemin_def Let_def)
  obtain suite where su: "?P = [etat_actuel ?A1] @ suite"
    using chemin_boucle_prefixe [of ?A1 "[etat_actuel ?A1]" chaine] by blast
  have suiv: "\<And>q c. suivant ?A1 q c = suivant A q c"
    by (simp add: suivant_def reinitialiser_def)
  have pairs: "\<exists>c\<in>set chaine. suivant A (?P ! i) c = Some (?P ! Suc i)"
    if "Suc i < length ?P" for i
  proof -
    have "[etat_actuel ?A1] \<noteq> []" and "last [etat_actuel ?A1] = etat_actuel ?A1"
      and "length [etat_actuel ?A1] \<le> Suc i" by simp_all
    from chemin_boucle_paires [OF this that] suiv show ?thesis by simp
  qed
  have "?P \<noteq> []" using su by simp
  moreover have "hd ?P = etat_initial A" using su by (simp add: reinitialiser_def)
  ultimately show ?thesis using pairs P by simp
qed

text \<open>
  On the example automaton and the input \<open>ab\<close>: the path starts at \<open>q0\<close>, and its
  second pair \<open>(q1, q2)\<close> is an entry of the table under a symbol of the input.
\<close>

theorem obtenir_chemin_transitions_witness:
  "fst (obtenir_chemin creer_afd_exemple (iter_str ''ab'')) \<noteq> [] \<and>
   hd (fst (obtenir_chemin creer_afd_exemple (iter_str ''ab''))) = ''q0'' \<and>
   (\<exists>c\<in>set (iter_str ''ab''). suivant creer_afd_exemple ''q1'' c = Some ''q2'')"
proof -
  have p: "fst (obtenir_chemin creer_afd_exemple (iter_str ''ab'')) = [''q0'', ''q1'', ''q2'']"
    by (simp add: evalue)
  have "Suc 1 < length (fst (obtenir_chemin creer_afd_exemple (iter_str ''ab'')))"
    by (simp add: p)
  with obtenir_chemin_transitions [of creer_afd_exemple "iter_str ''ab''"]
  have "\<exists>c\<in>set (iter_str ''ab'').
         suivant creer_afd_exemple
           (fst (obtenir_chemin creer_afd_exemple (iter_str ''ab'')) ! 1) c =
           Some (fst (obtenir_chemin creer_afd_exemple (iter_str ''ab'')) ! Suc 1)"
    by blast
  with obtenir_chemin_transitions [of creer_afd_exemple "iter_str ''ab''"] show ?thesis
    by (simp add: p exemple_champs)
qed

section \<open>A symbol outside the alphabet\<close>

lemma bien_forme_etat_actuel: "bien_forme (A\<lparr>etat_actuel := x\<rparr>) = bien_forme A"
  by (simp add: bien_forme_def)

lemma complet_etat_actuel: "complet (A\<lparr>etat_actuel := x\<rparr>) = complet A"
  by (simp add: complet_def suivant_etat_actuel)

lemma bien_forme_suivant:
  "bien_forme A \<Longrightarrow> suivant A q c = Some d \<Longrightarrow> d \<in> etats A"
  by (auto simp: bien_forme_def suivant_def split: option.splits)

text \<open>The loop stops at the symbol outside the alphabet, or earlier.\<close>

lemma accepter_boucle_hors_alphabet:
  "bad \<notin> alphabet A \<Longrightarrow>
     fst (accepter_boucle A (pre @ bad # rest)) = False \<and>
     (\<exists>k\<le>length pre.
        snd (snd (accepter_boucle A (pre @ bad # rest))) = drop (Suc k) (pre @ bad # rest))"
proof (induction pre arbitrary: A)
  case Nil
  then show ?case by (simp add: traiter_symbole_eq)
next
  case (Cons s p)
  obtain ok A' where t: "traiter_symbole A s = (ok, A')" by (cases "traiter_symbole A s")
  show ?case
  proof (cases ok)
    case False
    with t show ?thesis by auto
  next
    case True
    have "alphabet A' = alphabet A"
      using traiter_symbole_meme_definition [of A s] t by (simp add: meme_definition_def)
    with Cons.prems have "bad \<notin> alphabet A'" by simp
    from Cons.IH [OF this] obtain k where k: "k \<le> length p"
      "snd (snd (accepter_boucle A' (p @ bad # rest))) = drop (Suc k) (p @ bad # rest)"
      and f: "fst (accepter_boucle A' (p @ bad # rest)) = False"
      by blast
    have "Suc k \<le> length (s # p)" using k(1) by simp
    moreover have "snd (snd (accepter_boucle A ((s # p) @ bad # rest))) =
        drop (Suc (Suc k)) ((s # p) @ bad # rest)"
      using t True k(2) by simp
    moreover have "fst (accepter_boucle A ((s # p) @ bad # rest)) = False"
      using t True f by simp
    ultimately show ?thesis by blast
  qed
qed

text \<open>It stops there exactly when every step before it succeeds.\<close>

lemma accepter_boucle_reste_exact:
  "bad \<notin> alphabet A \<Longrightarrow>
     (snd (snd (accepter_boucle A (pre @ bad # rest))) = rest \<longleftrightarrow>
      length (fst (chemin_boucle A chemin pre)) = length chemin + length pre)"
proof (induction pre arbitrary: A chemin)
  case Nil
  then show ?case by (simp add: traiter_symbole_eq)
next
  case (Cons s p)
  obtain ok A' where t: "traiter_symbole A s = (ok, A')" by (cases "traiter_symbole A s")
  show ?case
  proof (cases ok)
    case False
    have "length (p @ bad # rest) \<noteq> length rest" by simp
    then have "p @ bad # rest \<noteq> rest" by metis
    with t False show ?thesis by simp
  next
    case True
    have "alphabet A' = alphabet A"
      using traiter_symbole_meme_definition [of A s] t by (simp add: meme_definition_def)
    with Cons.prems have "bad \<notin> alphabet A'" by simp
    from Cons.IH [OF this, of "chemin @ [etat_actuel A']"] t True show ?thesis by simp
  qed
qed

text \<open>
  On a valid definition with a complete table, started from a state of the automaton,
  every alphabet symbol makes a step.
\<close>

lemma chemin_boucle_complet:
  "bien_forme A \<Longrightarrow> complet A \<Longrightarrow> etat_actuel A \<in> etats A \<Longrightarrow> set pre \<subseteq> alphabet A \<Longrightarrow>
     length (fst (chemin_boucle A chemin pre)) = length chemin + length pre"
proof (induction pre arbitrary: A chemin)
  case Nil
  show ?case by simp
next
  case (Cons s p)
  from Cons.prems have s: "s \<in> alphabet A" by simp
  from Cons.prems(2,3) s have "suivant A (etat_actuel A) s \<noteq> None"
    unfolding complet_def by blast
  then obtain d where d: "suivant A (etat_actuel A) s = Some d"
    by blast
  let ?A' = "A\<lparr>etat_actuel := d\<rparr>"
  have t: "traiter_symbole A s = (True, ?A')"
    using s d by (simp add: traiter_symbole_eq)
  have "bien_forme ?A'" "complet ?A'" "etat_actuel ?A' \<in> etats ?A'" "set p \<subseteq> alphabet ?A'"
    using Cons.prems d bien_forme_suivant [OF Cons.prems(1) d]
    by (simp_all add: bien_forme_etat_actuel complet_etat_actuel)
  from Cons.IH [OF this, of "chemin @ [d]"] t show ?case by simp
qed

text \<open>
  C5, as the code has it. Let the input hold a symbol \<open>bad\<close> outside the alphabet,
  after the symbols \<open>pre\<close> and before the symbols \<open>rest\<close>. Then \<open>accepter_chaine\<close>
  returns \<open>False\<close>. The loop stops at \<open>bad\<close> or before it: what it leaves unfetched is
  the input after some position \<open>k\<close> that is at most the position of \<open>bad\<close>, so the
  symbols after \<open>bad\<close> are never consumed. It stops exactly at \<open>bad\<close>, leaving
  \<open>rest\<close>, if and only if every symbol of \<open>pre\<close> makes a step (the path of \<open>pre\<close>
  has full length); that is the case whenever the definition is valid, its table is
  complete and \<open>pre\<close> is made of alphabet symbols. With a partial table the loop can
  stop before \<open>bad\<close>, at the first pair without an entry.
\<close>

theorem rejet_hors_alphabet:
  assumes "bad \<notin> alphabet A"
  shows "fst (accepter_chaine A (pre @ bad # rest)) = False \<and>
     (\<exists>k\<le>length pre.
        snd (snd (accepter_chaine A (pre @ bad # rest))) = drop (Suc k) (pre @ bad # rest)) \<and>
     (snd (snd (accepter_chaine A (pre @ bad # rest))) = rest \<longleftrightarrow>
        length (fst (obtenir_chemin A pre)) = Suc (length pre)) \<and>
     (bien_forme A \<and> complet A \<and> set pre \<subseteq> alphabet A \<longrightarrow>
        snd (snd (accepter_chaine A (pre @ bad # rest))) = rest)"
proof -
  let ?A1 = "reinitialiser A"
  have b: "bad \<notin> alphabet ?A1" using assms by (simp add: reinitialiser_def)
  have 1: "fst (accepter_chaine A (pre @ bad # rest)) = False \<and>
     (\<exists>k\<le>length pre.
        snd (snd (accepter_chaine A (pre @ bad # rest))) = drop (Suc k) (pre @ bad # rest))"
    using accepter_boucle_hors_alphabet [OF b, of pre rest] by (simp add: accepter_chaine_def)
  have 2: "snd (snd (accepter_chaine A (pre @ bad # rest))) = rest \<longleftrightarrow>
        length (fst (obtenir_chemin A pre)) = Suc (length pre)"
    using accepter_boucle_reste_exact [OF b, of pre rest "[etat_actuel ?A1]"]
    by (simp add: accepter_chaine_def obtenir_chemin_def Let_def)
  have 3: "snd (snd (accepter_chaine A (pre @ bad # rest))) = rest"
    if h: "bien_forme A \<and> complet A \<and> set pre \<subseteq> alphabet A"
  proof -
    have "bien_forme ?A1" "complet ?A1" "etat_actuel ?A1 \<in> etats ?A1" "set pre \<subseteq> alphabet ?A1"
      using h by (simp_all add: reinitialiser_def bien_forme_etat_actuel complet_etat_actuel)
        (simp add: bien_forme_def)
    from chemin_boucle_complet [OF this, of "[etat_actuel ?A1]"] 2 show ?thesis
      by (simp add: obtenir_chemin_def Let_def)
  qed
  from 1 2 3 show ?thesis by blast
qed

text \<open>
  On the example automaton, valid and complete, the input \<open>a, c, b\<close> is rejected at
  \<open>c\<close>, and \<open>b\<close> is never fetched.
\<close>

theorem rejet_hors_alphabet_witness:
  "fst (accepter_chaine creer_afd_exemple [''a'', ''c'', ''b'']) = False \<and>
   snd (snd (accepter_chaine creer_afd_exemple [''a'', ''c'', ''b''])) = [''b'']"
proof -
  have b: "''c'' \<notin> alphabet creer_afd_exemple" by (simp add: exemple_champs)
  have h: "bien_forme creer_afd_exemple \<and> complet creer_afd_exemple \<and>
      set [''a''] \<subseteq> alphabet creer_afd_exemple"
    by (simp add: bien_forme_exemple complet_exemple exemple_champs)
  from rejet_hors_alphabet [OF b, of "[''a'']" "[''b'']"] h show ?thesis by simp
qed

text \<open>
  C5 as stated fails: on the partial automaton, which is valid, the input \<open>b, c, a\<close>
  is rejected at \<open>b\<close>, an alphabet symbol without a transition, before the first symbol
  outside the alphabet, \<open>c\<close>, which is never fetched.
\<close>

theorem rejet_avant_symbole_invalide:
  "bien_forme afd_partiel \<and> ''b'' \<in> alphabet afd_partiel \<and> ''c'' \<notin> alphabet afd_partiel \<and>
   accepter_chaine afd_partiel [''b'', ''c'', ''a''] =
     (False, afd_partiel, [''c'', ''a''])"
  by (simp add: bien_forme_partiel afd_partiel_champs accepter_chaine_def reinitialiser_def
      traiter_symbole_def)

section \<open>The empty input\<close>

text \<open>
  C6. \<open>accepter_chaine\<close> on the empty input performs no step: the object is left as
  \<open>reinitialiser\<close> leaves it, nothing of the input remains, and the result is true if and
  only if the initial state is an accepting state. This holds for every object, valid
  or not.
\<close>

theorem accepter_chaine_vide:
  "accepter_chaine A [] = (etat_initial A \<in> etats_finaux A, reinitialiser A, [])"
  by (simp add: accepter_chaine_def reinitialiser_def)

section \<open>No state leaks from one call to the next\<close>

lemma accepter_boucle_meme_definition:
  "meme_definition A (fst (snd (accepter_boucle A chaine)))"
proof (induction chaine arbitrary: A)
  case Nil
  show ?case by (simp add: meme_definition_refl)
next
  case (Cons s reste)
  obtain ok A' where t: "traiter_symbole A s = (ok, A')" by (cases "traiter_symbole A s")
  have m: "meme_definition A A'"
    using traiter_symbole_meme_definition [of A s] t by simp
  show ?case
  proof (cases ok)
    case True
    with t Cons.IH [of A'] m show ?thesis
      by (auto intro: meme_definition_trans)
  next
    case False
    with t m show ?thesis by simp
  qed
qed

lemma chemin_boucle_meme_definition:
  "meme_definition A (fst (snd (chemin_boucle A chemin chaine)))"
proof (induction chaine arbitrary: A chemin)
  case Nil
  show ?case by (simp add: meme_definition_refl)
next
  case (Cons s reste)
  obtain ok A' where t: "traiter_symbole A s = (ok, A')" by (cases "traiter_symbole A s")
  have m: "meme_definition A A'"
    using traiter_symbole_meme_definition [of A s] t by simp
  show ?case
  proof (cases ok)
    case True
    with t Cons.IH [of A' "chemin @ [etat_actuel A']"] m show ?thesis
      by (auto intro: meme_definition_trans)
  next
    case False
    with t m show ?thesis by simp
  qed
qed

text \<open>No call changes the five fields of the definition.\<close>

lemma executer_meme_definition: "meme_definition A (executer A ap)"
proof (cases ap)
  case Reinitialiser
  then show ?thesis by (simp add: meme_definition_reinitialiser)
next
  case (Traiter s)
  then show ?thesis by (simp add: traiter_symbole_meme_definition)
next
  case (Accepter ch)
  then show ?thesis
    using accepter_boucle_meme_definition [of "reinitialiser A" ch]
    by (auto simp: accepter_chaine_def
        intro: meme_definition_trans meme_definition_reinitialiser)
next
  case (Chemin ch)
  then show ?thesis
    using chemin_boucle_meme_definition
      [of "reinitialiser A" "[etat_actuel (reinitialiser A)]" ch]
    by (auto simp: obtenir_chemin_def Let_def
        intro: meme_definition_trans meme_definition_reinitialiser)
qed

lemma historique_meme_definition: "meme_definition A (historique A appels)"
  unfolding historique_def
proof (induction appels arbitrary: A)
  case Nil
  show ?case by (simp add: meme_definition_refl)
next
  case (Cons ap appels)
  show ?case
    using executer_meme_definition [of A ap] Cons.IH [of "executer A ap"]
    by (auto intro: meme_definition_trans)
qed

lemma accepter_chaine_cong:
  "meme_definition A B \<Longrightarrow> accepter_chaine A chaine = accepter_chaine B chaine"
  by (simp add: accepter_chaine_def reinitialiser_cong)

lemma obtenir_chemin_cong:
  "meme_definition A B \<Longrightarrow> obtenir_chemin A chaine = obtenir_chemin B chaine"
  by (simp add: obtenir_chemin_def reinitialiser_cong)

text \<open>
  C7. Calling \<open>accepter_chaine\<close> again on the object that a first call leaves returns
  the same as the first call, and so does \<open>obtenir_chemin\<close>; and after any sequence of
  earlier calls of \<open>reinitialiser\<close>, \<open>traiter_symbole\<close>, \<open>accepter_chaine\<close> and
  \<open>obtenir_chemin\<close> on the object, both return what they return on the object before
  those calls: each call starts again from the initial state. This holds for every
  object, valid or not.
\<close>

theorem appels_sans_fuite:
  "accepter_chaine (fst (snd (accepter_chaine A chaine))) chaine = accepter_chaine A chaine \<and>
   obtenir_chemin (fst (snd (obtenir_chemin A chaine))) chaine = obtenir_chemin A chaine \<and>
   accepter_chaine (historique A appels) chaine = accepter_chaine A chaine \<and>
   obtenir_chemin (historique A appels) chaine = obtenir_chemin A chaine"
proof -
  have a: "meme_definition A (fst (snd (accepter_chaine A chaine)))"
    using executer_meme_definition [of A "Accepter chaine"] by simp
  have c: "meme_definition A (fst (snd (obtenir_chemin A chaine)))"
    using executer_meme_definition [of A "Chemin chaine"] by simp
  have h: "meme_definition A (historique A appels)"
    by (rule historique_meme_definition)
  show ?thesis
    using accepter_chaine_cong [OF a, of chaine] obtenir_chemin_cong [OF c, of chaine]
      accepter_chaine_cong [OF h, of chaine] obtenir_chemin_cong [OF h, of chaine]
    by simp
qed

section \<open>The example automaton\<close>

text \<open>
  C8. On the automaton built by \<open>creer_afd_exemple\<close>: \<open>ab\<close> is accepted with path
  \<open>q0, q1, q2\<close>; \<open>aab\<close> is accepted with path \<open>q0, q1, q1, q2\<close>; \<open>b\<close> is rejected
  with path \<open>q0, q0\<close>; \<open>aa\<close> is rejected with path \<open>q0, q1, q1\<close>; \<open>abb\<close> is rejected
  with path \<open>q0, q1, q2, q0\<close>; \<open>ac\<close> is rejected with path \<open>q0, q1\<close>, and the loop
  stops at \<open>c\<close> without a step: the current state stays \<open>q1\<close>.
\<close>

theorem exemple_scenario:
  "fst (accepter_chaine creer_afd_exemple (iter_str ''ab'')) = True \<and>
   fst (obtenir_chemin creer_afd_exemple (iter_str ''ab'')) = [''q0'', ''q1'', ''q2''] \<and>
   fst (accepter_chaine creer_afd_exemple (iter_str ''aab'')) = True \<and>
   fst (obtenir_chemin creer_afd_exemple (iter_str ''aab'')) = [''q0'', ''q1'', ''q1'', ''q2''] \<and>
   fst (accepter_chaine creer_afd_exemple (iter_str ''b'')) = False \<and>
   fst (obtenir_chemin creer_afd_exemple (iter_str ''b'')) = [''q0'', ''q0''] \<and>
   fst (accepter_chaine creer_afd_exemple (iter_str ''aa'')) = False \<and>
   fst (obtenir_chemin creer_afd_exemple (iter_str ''aa'')) = [''q0'', ''q1'', ''q1''] \<and>
   fst (accepter_chaine creer_afd_exemple (iter_str ''abb'')) = False \<and>
   fst (obtenir_chemin creer_afd_exemple (iter_str ''abb'')) = [''q0'', ''q1'', ''q2'', ''q0''] \<and>
   fst (accepter_chaine creer_afd_exemple (iter_str ''ac'')) = False \<and>
   fst (obtenir_chemin creer_afd_exemple (iter_str ''ac'')) = [''q0'', ''q1''] \<and>
   etat_actuel (fst (snd (obtenir_chemin creer_afd_exemple (iter_str ''ac'')))) = ''q1''"
  by (simp add: evalue)

section \<open>The three copies\<close>

lemma traiter_symbole_enh_eq: "traiter_symbole_enh A s = traiter_symbole A s"
  by (simp add: traiter_symbole_enh_def traiter_symbole_def Let_def split: option.splits)

lemma traiter_symbole_enhd_eq: "traiter_symbole_enhd A s = traiter_symbole A s"
  by (simp add: traiter_symbole_enhd_def traiter_symbole_def Let_def split: option.splits)

lemma accepter_boucle_enh_eq: "accepter_boucle_enh A chaine = accepter_boucle A chaine"
  by (induction chaine arbitrary: A) (simp_all add: traiter_symbole_enh_eq split: prod.splits)

lemma accepter_boucle_enhd_eq: "accepter_boucle_enhd A chaine = accepter_boucle A chaine"
  by (induction chaine arbitrary: A) (simp_all add: traiter_symbole_enhd_eq split: prod.splits)

lemma chemin_boucle_enh_eq:
  "chemin_boucle_enh A chemin chaine = chemin_boucle A chemin chaine"
  by (induction chaine arbitrary: A chemin)
    (simp_all add: traiter_symbole_enh_eq split: prod.splits)

lemma chemin_boucle_enhd_eq:
  "chemin_boucle_enhd A chemin chaine = chemin_boucle A chemin chaine"
  by (induction chaine arbitrary: A chemin)
    (simp_all add: traiter_symbole_enhd_eq split: prod.splits)

text \<open>
  C9, as the code has it. On every object and every input, \<open>accepter_chaine\<close> and
  \<open>obtenir_chemin\<close> of the two dataclasses return what those of the class of
  \<open>afd_core.py\<close> return (the boolean or the path, and the object left behind), and the
  two dataclass constructors agree on every definition. A definition whose initial
  state and accepting states are states is accepted by the dataclass constructor and
  gives the object that the constructor of \<open>afd_core.py\<close> builds from it, so the three
  copies return identical results for it. For any other definition the copies differ:
  the dataclass constructors raise and give no object, while the constructor of
  \<open>afd_core.py\<close> builds the automaton, whose operations return results.
\<close>

theorem trois_copies:
  "accepter_chaine_enh A chaine = accepter_chaine A chaine \<and>
   accepter_chaine_enhd A chaine = accepter_chaine A chaine \<and>
   obtenir_chemin_enh A chaine = obtenir_chemin A chaine \<and>
   obtenir_chemin_enhd A chaine = obtenir_chemin A chaine \<and>
   AFD_enhd alph ets ini fin trs = AFD_enh alph ets ini fin trs \<and>
   (ini \<in> ets \<and> fin \<subseteq> ets \<longrightarrow>
      AFD_enh alph ets ini fin trs = Inr (AFD_init alph ets ini fin trs)) \<and>
   (ini \<notin> ets \<or> \<not> fin \<subseteq> ets \<longrightarrow> isl (AFD_enh alph ets ini fin trs))"
  by (auto simp: accepter_chaine_enh_def accepter_chaine_enhd_def accepter_chaine_def
      obtenir_chemin_enh_def obtenir_chemin_enhd_def obtenir_chemin_def
      reinitialiser_enh_def reinitialiser_enhd_def reinitialiser_def
      accepter_boucle_enh_eq accepter_boucle_enhd_eq chemin_boucle_enh_eq chemin_boucle_enhd_eq
      AFD_enh_def AFD_enhd_def AFD_init_def split: if_splits)

text \<open>
  The dataclass constructor accepts the example definition and builds the object of
  \<open>creer_afd_exemple\<close>; it refuses a definition whose initial state \<open>q1\<close> is not a
  state.
\<close>

theorem trois_copies_witness:
  "AFD_enh {''a'', ''b''} {''q0'', ''q1'', ''q2''} ''q0'' {''q2''}
       [''q0'' \<mapsto> [''a'' \<mapsto> ''q1'', ''b'' \<mapsto> ''q0''],
        ''q1'' \<mapsto> [''a'' \<mapsto> ''q1'', ''b'' \<mapsto> ''q2''],
        ''q2'' \<mapsto> [''a'' \<mapsto> ''q1'', ''b'' \<mapsto> ''q0'']] = Inr creer_afd_exemple \<and>
   accepter_chaine_enh creer_afd_exemple (iter_str ''ab'') =
     accepter_chaine creer_afd_exemple (iter_str ''ab'') \<and>
   isl (AFD_enh {''a''} {''q0''} ''q1'' {''q1''} Map.empty)"
proof -
  let ?t = "[''q0'' \<mapsto> [''a'' \<mapsto> ''q1'', ''b'' \<mapsto> ''q0''],
        ''q1'' \<mapsto> [''a'' \<mapsto> ''q1'', ''b'' \<mapsto> ''q2''],
        ''q2'' \<mapsto> [''a'' \<mapsto> ''q1'', ''b'' \<mapsto> ''q0'']]"
  have h1: "''q0'' \<in> {''q0'', ''q1'', ''q2''} \<and> {''q2''} \<subseteq> {''q0'', ''q1'', ''q2''}"
    by simp
  have h2: "''q1'' \<notin> {''q0''} \<or> \<not> {''q1''} \<subseteq> {''q0''}" by simp
  from trois_copies [of creer_afd_exemple "iter_str ''ab''" "{''a'', ''b''}"
      "{''q0'', ''q1'', ''q2''}" "''q0''" "{''q2''}" ?t] h1
    trois_copies [of creer_afd_exemple "iter_str ''ab''" "{''a''}" "{''q0''}" "''q1''"
      "{''q1''}" Map.empty] h2
  show ?thesis by (simp add: creer_afd_exemple_def)
qed

text \<open>
  C9 as stated fails: for the definition with alphabet \<open>{a}\<close>, states \<open>{q0}\<close>,
  initial state \<open>q1\<close>, accepting states \<open>{q1}\<close> and no transition, the class of
  \<open>afd_core.py\<close> builds the automaton, accepts the empty input and returns the path
  \<open>q1\<close>, while both dataclasses raise \<open>ValueError\<close> at construction.
\<close>

theorem copies_divergentes:
  "fst (accepter_chaine (AFD_init {''a''} {''q0''} ''q1'' {''q1''} Map.empty) []) = True \<and>
   fst (obtenir_chemin (AFD_init {''a''} {''q0''} ''q1'' {''q1''} Map.empty) []) = [''q1''] \<and>
   AFD_enh {''a''} {''q0''} ''q1'' {''q1''} Map.empty =
     Inl (ValueError ''etat_initial must be an element of etats'') \<and>
   AFD_enhd {''a''} {''q0''} ''q1'' {''q1''} Map.empty =
     Inl (ValueError ''etat_initial must be an element of etats'')"
  by (simp add: AFD_init_def AFD_enh_def AFD_enhd_def accepter_chaine_def obtenir_chemin_def
      Let_def reinitialiser_def)

section \<open>Acceptance and the length of the path\<close>

lemma boucles_longueur:
  "chemin \<noteq> [] \<Longrightarrow> last chemin = etat_actuel A \<Longrightarrow>
     length chemin \<le> length (fst (chemin_boucle A chemin chaine)) \<and>
     length (fst (chemin_boucle A chemin chaine)) \<le> length chemin + length chaine \<and>
     (fst (accepter_boucle A chaine) \<longleftrightarrow>
        length (fst (chemin_boucle A chemin chaine)) = length chemin + length chaine \<and>
        last (fst (chemin_boucle A chemin chaine)) \<in> etats_finaux A)"
proof (induction chaine arbitrary: A chemin)
  case Nil
  then show ?case by simp
next
  case (Cons s reste)
  obtain ok A' where t: "traiter_symbole A s = (ok, A')" by (cases "traiter_symbole A s")
  show ?case
  proof (cases ok)
    case True
    have f: "etats_finaux A' = etats_finaux A"
      using traiter_symbole_meme_definition [of A s] t by (simp add: meme_definition_def)
    have "chemin @ [etat_actuel A'] \<noteq> []"
      and "last (chemin @ [etat_actuel A']) = etat_actuel A'"
      by simp_all
    from Cons.IH [OF this] t True f show ?thesis by simp
  next
    case False
    with t show ?thesis by simp
  qed
qed

text \<open>
  C10. For every object and every input, the path returned by \<open>obtenir_chemin\<close> has
  at least one element and at most one more than the input has symbols, and
  \<open>accepter_chaine\<close> returns true if and only if the path has exactly one element more
  than the input has symbols and its last element is an accepting state. This holds for
  every object, valid or not.
\<close>

theorem accepter_chemin_longueur:
  "1 \<le> length (fst (obtenir_chemin A chaine)) \<and>
   length (fst (obtenir_chemin A chaine)) \<le> length chaine + 1 \<and>
   (fst (accepter_chaine A chaine) \<longleftrightarrow>
      length (fst (obtenir_chemin A chaine)) = length chaine + 1 \<and>
      last (fst (obtenir_chemin A chaine)) \<in> etats_finaux A)"
proof -
  let ?A1 = "reinitialiser A"
  have "[etat_actuel ?A1] \<noteq> []" and "last [etat_actuel ?A1] = etat_actuel ?A1"
    by simp_all
  from boucles_longueur [OF this, of chaine]
  show ?thesis
    by (simp add: obtenir_chemin_def accepter_chaine_def Let_def reinitialiser_def)
qed

end
